theory Spec2Isabelle
  imports Complex_Main "HOL-Library.Word"
begin

unbundle bit_operations_syntax

section \<open>Data model\<close>

text \<open>Screen dimensions (\<^verbatim>\<open>#define W 128\<close>, \<^verbatim>\<open>#define H 64\<close>); C \<^verbatim>\<open>int\<close> constants.\<close>

definition W :: int where
  "W = 128"

definition H :: int where
  "H = 64"

text \<open>
  Modelled from the spec: the input event's key identifier and press type. Their C
  declarations (\<^verbatim>\<open>InputKey\<close>, \<^verbatim>\<open>InputType\<close>, \<^verbatim>\<open>InputEvent\<close>) live in the firmware header
  \<^verbatim>\<open>input/input.h\<close>, which is not among the sources. The source tests the type against
  \<^verbatim>\<open>InputTypeShort\<close> only and switches on five keys with a \<^verbatim>\<open>default\<close> branch, so every
  other key is \<open>InputKeyOther\<close> and every other press type \<open>InputTypeOther\<close>.
\<close>

datatype input_key =
  InputKeyUp | InputKeyDown | InputKeyRight | InputKeyLeft | InputKeyBack | InputKeyOther

datatype input_type = InputTypeShort | InputTypeOther

record input_event =
  key :: input_key
  type :: input_type

text \<open>
  The functions the program calls but does not define, taken as parameters: the C
  library's pseudo-random source (\<^verbatim>\<open>rand\<close>, \<^verbatim>\<open>srand\<close>, over an abstract generator state
  \<open>'r\<close>; \<^verbatim>\<open>rand\<close> returns a value in \<open>0..RAND_MAX\<close>, hence a \<open>nat\<close>) and single-precision
  arithmetic over an abstract type \<open>'f\<close> of \<^verbatim>\<open>float\<close> values: conversion from an integer,
  the value of a decimal literal, the four operations, \<^verbatim>\<open>sqrtf\<close>, \<^verbatim>\<open>sinf\<close>, \<^verbatim>\<open>cosf\<close>,
  \<^verbatim>\<open>atan2f\<close>, \<^verbatim>\<open>floorf\<close>, the conversion \<^verbatim>\<open>(int)\<close> and the comparison \<^verbatim>\<open>>\<close>.
\<close>

record ('f, 'r) host =
  rand :: "'r \<Rightarrow> nat \<times> 'r"
  srand :: "32 word \<Rightarrow> 'r"
  f_of_int :: "int \<Rightarrow> 'f"
  f_lit :: "rat \<Rightarrow> 'f"
  f_add :: "'f \<Rightarrow> 'f \<Rightarrow> 'f"
  f_sub :: "'f \<Rightarrow> 'f \<Rightarrow> 'f"
  f_mul :: "'f \<Rightarrow> 'f \<Rightarrow> 'f"
  f_div :: "'f \<Rightarrow> 'f \<Rightarrow> 'f"
  sqrtf :: "'f \<Rightarrow> 'f"
  sinf :: "'f \<Rightarrow> 'f"
  cosf :: "'f \<Rightarrow> 'f"
  atan2f :: "'f \<Rightarrow> 'f \<Rightarrow> 'f"
  floorf :: "'f \<Rightarrow> 'f"
  f_to_int :: "'f \<Rightarrow> int"
  f_gt :: "'f \<Rightarrow> 'f \<Rightarrow> bool"

text \<open>
  The program's globals (\<open>app_running\<close>, \<open>dot_threshold\<close>, \<open>style\<close>, \<open>frame\<close>) together
  with the three objects it acts on through the host: the state of the random source,
  the canvas handed to the draw callback (the dots drawn since the last
  \<^verbatim>\<open>canvas_clear\<close>, most recent first) and the number of \<^verbatim>\<open>view_port_update\<close> requests
  issued by the input callback.
\<close>

record 'r app =
  app_running :: bool
  dot_threshold :: "8 word"
  style :: "8 word"
  frame :: "32 word"
  rng :: 'r
  canvas :: "(int \<times> int) list"
  vp_updates :: nat

definition initial :: "'r \<Rightarrow> 'r app" where
  "initial g = \<lparr>app_running = True, dot_threshold = 50, style = 0, frame = 0,
     rng = g, canvas = [], vp_updates = 0\<rparr>"

text \<open>The implicit conversion of an \<^verbatim>\<open>int\<close> to \<^verbatim>\<open>uint8_t\<close>.\<close>

definition u8 :: "int \<Rightarrow> 8 word" where
  "u8 i = word_of_int i"

definition clamp_u8 :: "8 word \<Rightarrow> 8 word \<Rightarrow> 8 word \<Rightarrow> 8 word" where
  "clamp_u8 v lo hi = (if v < lo then lo else if v > hi then hi else v)"

section \<open>Canvas and view port\<close>

definition canvas_clear :: "'r app \<Rightarrow> 'r app" where
  "canvas_clear s = s\<lparr>canvas := []\<rparr>"

definition canvas_draw_dot :: "int \<Rightarrow> int \<Rightarrow> 'r app \<Rightarrow> 'r app" where
  "canvas_draw_dot x y s = s\<lparr>canvas := (x, y) # canvas s\<rparr>"

definition lit :: "'r app \<Rightarrow> int \<times> int \<Rightarrow> bool" where
  "lit s p = (p \<in> set (canvas s))"

definition view_port_update :: "'r app \<Rightarrow> 'r app" where
  "view_port_update s = s\<lparr>vp_updates := Suc (vp_updates s)\<rparr>"

section \<open>Input state machine\<close>

text \<open>
  \<open>input_switch\<close> is the \<^verbatim>\<open>switch\<close> of \<^verbatim>\<open>input_callback\<close>: the new state and the value of
  \<^verbatim>\<open>do_redraw\<close>. The \<^verbatim>\<open>Back\<close> case returns from the callback at once, with \<^verbatim>\<open>do_redraw\<close>
  still false. The operands of \<open>style - 1\<close>, \<open>style + 1\<close>, \<open>dot_threshold + 10\<close> and
  \<open>dot_threshold - 10\<close> are promoted to \<^verbatim>\<open>int\<close> and the result is converted back.
\<close>

definition input_switch :: "input_key \<Rightarrow> 'r app \<Rightarrow> 'r app \<times> bool" where
  "input_switch k s =
     (case k of
        InputKeyBack \<Rightarrow> (s\<lparr>app_running := False\<rparr>, False)
      | InputKeyLeft \<Rightarrow>
          (s\<lparr>style := (if style s = 0 then 6 else u8 (uint (style s) - 1))\<rparr>, True)
      | InputKeyRight \<Rightarrow>
          (s\<lparr>style := (if style s = 6 then 0 else u8 (uint (style s) + 1))\<rparr>, True)
      | InputKeyUp \<Rightarrow>
          (s\<lparr>dot_threshold := clamp_u8 (u8 (uint (dot_threshold s) + 10)) 0 100\<rparr>, True)
      | InputKeyDown \<Rightarrow>
          (s\<lparr>dot_threshold :=
               (if dot_threshold s < 10 then 0 else u8 (uint (dot_threshold s) - 10))\<rparr>, True)
      | InputKeyOther \<Rightarrow> (s, False))"

definition input_callback :: "input_event \<Rightarrow> 'r app \<Rightarrow> 'r app" where
  "input_callback event s =
     (if type event \<noteq> InputTypeShort then s
      else case input_switch (key event) s of
             (s', do_redraw) \<Rightarrow> if do_redraw then view_port_update s' else s')"

definition short_press :: "input_key \<Rightarrow> input_event" where
  "short_press k = \<lparr>key = k, type = InputTypeShort\<rparr>"

section \<open>Pattern library\<close>

subsection \<open>Random mirrored dots\<close>

text \<open>The body of the inner loop of \<^verbatim>\<open>render_style0\<close>: one call of \<^verbatim>\<open>rand\<close> per pixel.\<close>

definition style0_pixel :: "('f, 'r) host \<Rightarrow> int \<Rightarrow> int \<Rightarrow> 'r app \<Rightarrow> 'r app" where
  "style0_pixel h x y s =
     (case rand h (rng s) of
        (v, g) \<Rightarrow>
          let s1 = s\<lparr>rng := g\<rparr> in
          if int (v mod 100) < uint (dot_threshold s1)
          then canvas_draw_dot (W - 1 - x) y (canvas_draw_dot x y s1)
          else s1)"

definition render_style0 :: "('f, 'r) host \<Rightarrow> 'r app \<Rightarrow> 'r app" where
  "render_style0 h s =
     fold (\<lambda>x. fold (\<lambda>y. style0_pixel h x y) [0..H - 1]) [0..W div 2 - 1] (canvas_clear s)"

subsection \<open>Concentric arcs\<close>

definition style1_step :: "8 word \<Rightarrow> 8 word" where
  "style1_step d = clamp_u8 (u8 (uint d div 10 + 2)) 2 10"

text \<open>\<^verbatim>\<open>(int)(sqrtf((float)inside) + 0.5f)\<close>\<close>

definition style1_dx :: "('f, 'r) host \<Rightarrow> int \<Rightarrow> int" where
  "style1_dx h inside =
     f_to_int h (f_add h (sqrtf h (f_of_int h inside)) (f_lit h (5 / 10)))"

definition style1_dot :: "('f, 'r) host \<Rightarrow> int \<Rightarrow> int \<Rightarrow> 'r app \<Rightarrow> 'r app" where
  "style1_dot h r dy s =
     (let cx = W div 2; cy = H div 2; inside = r * r - dy * dy in
      if inside < 0 then s
      else let dx = style1_dx h inside in
           canvas_draw_dot (cx + dx) (cy + dy) (canvas_draw_dot (cx - dx) (cy + dy) s))"

text \<open>
  The outer loop \<^verbatim>\<open>for(int r = offset; r < cy; r += step)\<close>. The stride is the local
  \<^verbatim>\<open>step\<close>, computed from \<open>dot_threshold\<close> before the loop and constant in it; the loop
  ends because \<^verbatim>\<open>clamp_u8\<close> makes it at least 2.
\<close>

function style1_rings :: "('f, 'r) host \<Rightarrow> 8 word \<Rightarrow> int \<Rightarrow> 'r app \<Rightarrow> 'r app" where
  "style1_rings h d r s =
     (if r < H div 2
      then style1_rings h d (r + uint (style1_step d)) (fold (style1_dot h r) [- r..r] s)
      else s)"
  by pat_completeness auto
termination
proof (relation "measure (\<lambda>(h, d, r, s). nat (H div 2 - r))")
  show "wf (measure (\<lambda>(h :: ('f, 'r) host, d :: 8 word, r :: int, s :: 'r app). nat (H div 2 - r)))"
    by simp
next
  fix h :: "('f, 'r) host" and d :: "8 word" and r :: int and s :: "'r app"
  assume "r < H div 2"
  moreover have "0 < uint (style1_step d)"
    by (simp add: style1_step_def clamp_u8_def word_less_def word_le_def)
  ultimately show
    "((h, d, r + uint (style1_step d), fold (style1_dot h r) [- r..r] s), (h, d, r, s))
       \<in> measure (\<lambda>(h, d, r, s). nat (H div 2 - r))"
    by simp
qed

declare style1_rings.simps [simp del]

definition render_style1 :: "('f, 'r) host \<Rightarrow> 'r app \<Rightarrow> 'r app" where
  "render_style1 h s =
     (let step = style1_step (dot_threshold s);
          offset = uint (frame s) mod uint step
      in style1_rings h (dot_threshold s) offset (canvas_clear s))"

subsection \<open>Rotating star\<close>

definition style2_spokes :: "8 word \<Rightarrow> 8 word" where
  "style2_spokes d = clamp_u8 (u8 (uint d div 10 + 2)) 2 16"

definition x_off :: "('f, 'r) host \<Rightarrow> 'f \<Rightarrow> int \<Rightarrow> int" where
  "x_off h a len = f_to_int h (f_mul h (cosf h a) (f_of_int h len))"

definition y_off :: "('f, 'r) host \<Rightarrow> 'f \<Rightarrow> int \<Rightarrow> int" where
  "y_off h a len = f_to_int h (f_mul h (sinf h a) (f_of_int h len))"

definition style2_dot :: "('f, 'r) host \<Rightarrow> 'f \<Rightarrow> int \<Rightarrow> 'r app \<Rightarrow> 'r app" where
  "style2_dot h a len s =
     (let cx = W div 2; cy = H div 2 in
      canvas_draw_dot (cx - x_off h a len) (cy + y_off h a len)
        (canvas_draw_dot (cx + x_off h a len) (cy + y_off h a len) s))"

definition base_angle :: "('f, 'r) host \<Rightarrow> 32 word \<Rightarrow> 'f" where
  "base_angle h fr = f_mul h (f_of_int h (uint fr)) (f_lit h (5 / 100))"

definition angle_step :: "('f, 'r) host \<Rightarrow> 8 word \<Rightarrow> 'f" where
  "angle_step h spokes = f_div h (f_lit h (314159 / 100000)) (f_of_int h (uint spokes))"

definition spoke_angle :: "('f, 'r) host \<Rightarrow> 32 word \<Rightarrow> 8 word \<Rightarrow> int \<Rightarrow> 'f" where
  "spoke_angle h fr spokes sp =
     f_add h (base_angle h fr) (f_mul h (f_of_int h sp) (angle_step h spokes))"

definition perp_angle :: "('f, 'r) host \<Rightarrow> 'f \<Rightarrow> 'f" where
  "perp_angle h a = f_add h a (f_div h (f_lit h (314159 / 100000)) (f_lit h 2))"

definition style2_spoke :: "('f, 'r) host \<Rightarrow> 32 word \<Rightarrow> 8 word \<Rightarrow> int \<Rightarrow> 'r app \<Rightarrow> 'r app" where
  "style2_spoke h fr spokes sp s =
     (let angle = spoke_angle h fr spokes sp;
          s1 = fold (style2_dot h angle) [0..W div 2 - 1] s;
          perp = perp_angle h angle
      in fold (style2_dot h perp) [0..H div 2 - 1] s1)"

definition render_style2 :: "('f, 'r) host \<Rightarrow> 'r app \<Rightarrow> 'r app" where
  "render_style2 h s =
     (let spokes = style2_spokes (dot_threshold s) in
      fold (style2_spoke h (frame s) spokes) [0..uint spokes - 1] (canvas_clear s))"

subsection \<open>Quadrant noise\<close>

definition style3_pixel :: "('f, 'r) host \<Rightarrow> int \<Rightarrow> int \<Rightarrow> 'r app \<Rightarrow> 'r app" where
  "style3_pixel h x y s =
     (let cx = W div 2; cy = H div 2; maxDist = cx + cy;
          dx = \<bar>x - cx\<bar>; dy = \<bar>y - cy\<bar>; dist = dx + dy;
          localThresh = uint (dot_threshold s) - (dist * uint (dot_threshold s)) div maxDist;
          localThresh = (if localThresh < 0 then 0 else localThresh)
      in case rand h (rng s) of
           (v, g) \<Rightarrow>
             let s1 = s\<lparr>rng := g\<rparr> in
             if int (v mod 100) < uint (u8 localThresh) then canvas_draw_dot x y s1 else s1)"

text \<open>\<open>tick\<close> is the value \<^verbatim>\<open>furi_get_tick()\<close> returns in this call.\<close>

definition render_style3 :: "('f, 'r) host \<Rightarrow> 32 word \<Rightarrow> 'r app \<Rightarrow> 'r app" where
  "render_style3 h tick s =
     (let s0 = (canvas_clear s)\<lparr>rng := srand h (tick XOR frame s)\<rparr> in
      fold (\<lambda>x. fold (\<lambda>y. style3_pixel h x y) [0..H - 1]) [0..W - 1] s0)"

subsection \<open>Spiral swirl\<close>

definition style4_pixel :: "('f, 'r) host \<Rightarrow> int \<Rightarrow> int \<Rightarrow> 'r app \<Rightarrow> 'r app" where
  "style4_pixel h y x s =
     (let cx = W div 2; cy = H div 2;
          dx = f_of_int h (x - cx); dy = f_of_int h (y - cy);
          r = sqrtf h (f_add h (f_mul h dx dx) (f_mul h dy dy));
          angle = atan2f h dy dx;
          val = sinf h (f_sub h
                  (f_add h (f_mul h r (f_lit h (3 / 10))) (f_mul h angle (f_lit h 6)))
                  (f_mul h (f_of_int h (uint (frame s))) (f_lit h (1 / 10))))
      in if f_gt h val (f_lit h (8 / 10)) then canvas_draw_dot x y s else s)"

definition render_style4 :: "('f, 'r) host \<Rightarrow> 'r app \<Rightarrow> 'r app" where
  "render_style4 h s =
     fold (\<lambda>y. fold (\<lambda>x. style4_pixel h y x) [0..W - 1]) [0..H - 1] (canvas_clear s)"

subsection \<open>Checkerboard wave\<close>

definition style5_pixel :: "('f, 'r) host \<Rightarrow> int \<Rightarrow> int \<Rightarrow> 'r app \<Rightarrow> 'r app" where
  "style5_pixel h y x s =
     (let nx = f_add h (f_mul h (f_of_int h x) (f_lit h (1 / 10)))
                 (f_mul h (f_of_int h (uint (frame s))) (f_lit h (5 / 100)));
          ny = f_mul h (f_of_int h y) (f_lit h (1 / 10));
          checker = (f_to_int h (floorf h nx) + f_to_int h (floorf h ny)) AND 1
      in if checker \<noteq> 0
         then let wave = f_mul h (sinf h (f_mul h nx (f_lit h (15 / 10))))
                           (cosf h (f_mul h ny (f_lit h (15 / 10))))
              in if f_gt h wave (f_lit h (3 / 10)) then canvas_draw_dot x y s else s
         else s)"

definition render_style5 :: "('f, 'r) host \<Rightarrow> 'r app \<Rightarrow> 'r app" where
  "render_style5 h s =
     fold (\<lambda>y. fold (\<lambda>x. style5_pixel h y x) [0..W - 1]) [0..H - 1] (canvas_clear s)"

subsection \<open>Pulsating sunburst\<close>

definition style6_pixel :: "('f, 'r) host \<Rightarrow> int \<Rightarrow> int \<Rightarrow> 'r app \<Rightarrow> 'r app" where
  "style6_pixel h y x s =
     (let cx = W div 2; cy = H div 2;
          rays = 6 + uint (dot_threshold s) div 5;
          speed = f_mul h (f_of_int h (uint (frame s))) (f_lit h (8 / 100));
          dx = f_of_int h (x - cx); dy = f_of_int h (y - cy);
          r = sqrtf h (f_add h (f_mul h dx dx) (f_mul h dy dy));
          angle = atan2f h dy dx;
          ray_val = cosf h (f_add h (f_mul h angle (f_of_int h rays)) speed);
          ring_val = sinf h (f_sub h (f_mul h r (f_lit h (25 / 100)))
                               (f_mul h speed (f_lit h (7 / 10))))
      in if f_gt h (f_mul h ray_val ring_val) (f_lit h (65 / 100))
         then canvas_draw_dot x y s else s)"

definition render_style6 :: "('f, 'r) host \<Rightarrow> 'r app \<Rightarrow> 'r app" where
  "render_style6 h s =
     fold (\<lambda>y. fold (\<lambda>x. style6_pixel h y x) [0..W - 1]) [0..H - 1] (canvas_clear s)"

section \<open>Pattern dispatcher\<close>

definition render_pattern :: "('f, 'r) host \<Rightarrow> 32 word \<Rightarrow> 'r app \<Rightarrow> 'r app" where
  "render_pattern h tick s =
     (let s1 = s\<lparr>frame := frame s + 1\<rparr> in
      if style s1 = 0 then render_style2 h s1
      else if style s1 = 1 then render_style1 h s1
      else if style s1 = 2 then render_style3 h tick s1
      else if style s1 = 3 then render_style0 h s1
      else if style s1 = 4 then render_style4 h s1
      else if style s1 = 5 then render_style5 h s1
      else if style s1 = 6 then render_style6 h s1
      else render_style0 h s1)"

definition view_callback :: "('f, 'r) host \<Rightarrow> 32 word \<Rightarrow> 'r app \<Rightarrow> 'r app" where
  "view_callback h tick s = render_pattern h tick s"

text \<open>
  The host calls the two callbacks in some order: an input event, or a draw request
  together with the tick value current during it.
\<close>

datatype call = Input input_event | Draw "32 word"

fun dispatch :: "('f, 'r) host \<Rightarrow> call \<Rightarrow> 'r app \<Rightarrow> 'r app" where
  "dispatch h (Input event) s = input_callback event s"
| "dispatch h (Draw tick) s = view_callback h tick s"

definition run :: "('f, 'r) host \<Rightarrow> call list \<Rightarrow> 'r app \<Rightarrow> 'r app" where
  "run h calls s = fold (dispatch h) calls s"

section \<open>Auxiliary notions for the properties\<close>

text \<open>The part of the state that only the input callback and the dispatcher write.\<close>

definition globals :: "'r app \<Rightarrow> bool \<times> 8 word \<times> 8 word \<times> 32 word \<times> nat" where
  "globals s = (app_running s, dot_threshold s, style s, frame s, vp_updates s)"

definition in_range :: "'r app \<Rightarrow> bool" where
  "in_range s = (style s \<le> 6 \<and> dot_threshold s \<le> 100)"

fun is_draw :: "call \<Rightarrow> bool" where
  "is_draw (Draw tick) = True"
| "is_draw (Input event) = False"

text \<open>
  A concrete host, for evaluating the program on explicit inputs. A \<^verbatim>\<open>float\<close> value is
  represented by the rational it denotes. Literals are exact except \<^verbatim>\<open>3.14159f\<close> and
  \<^verbatim>\<open>0.05f\<close>, which are the nearest single-precision values; arithmetic is exact;
  \<^verbatim>\<open>(int)\<close> truncates towards zero. \<^verbatim>\<open>cosf\<close> and \<^verbatim>\<open>sinf\<close> return the single-precision
  results at the three angles the star reaches at frame 0 with two spokes, namely 0,
  \<^verbatim>\<open>3.14159f / 2\<close> and \<^verbatim>\<open>3.14159f\<close>, and 0 at every other argument; \<^verbatim>\<open>sqrtf\<close> and
  \<^verbatim>\<open>atan2f\<close>, which neither the star nor the mirrored dots call, are constant. On the
  arguments reached there the host agrees with single-precision arithmetic except in
  the products \<^verbatim>\<open>cosf(a) * len\<close> and \<^verbatim>\<open>sinf(a) * len\<close> of magnitude below \<open>1 / 1000\<close>, which
  are not rounded here and which \<^verbatim>\<open>(int)\<close> takes to 0 either way. The random source is
  the linear congruential generator of the C standard's example.
\<close>

definition star_host :: "(rat, nat) host" where
  "star_host =
     \<lparr>rand = (\<lambda>g. let n = (g * 1103515245 + 12345) mod 2 ^ 32 in (n div 65536 mod 32768, n)),
      srand = unat,
      f_of_int = of_int,
      f_lit = (\<lambda>q. if q = 314159 / 100000 then 823549 / 262144
                    else if q = 5 / 100 then 13421773 / 268435456 else q),
      f_add = (+), f_sub = (-), f_mul = (*), f_div = (/),
      sqrtf = (\<lambda>x. 0),
      sinf = (\<lambda>a. if a = 823549 / 524288 then 1
                   else if a = 823549 / 262144 then 11149847 / 4398046511104 else 0),
      cosf = (\<lambda>a. if a = 0 then 1
                   else if a = 823549 / 524288 then 11149847 / 8796093022208
                   else if a = 823549 / 262144 then - 1 else 0),
      atan2f = (\<lambda>y x. 0),
      floorf = (\<lambda>x. of_int \<lfloor>x\<rfloor>),
      f_to_int = (\<lambda>x. if 0 \<le> x then \<lfloor>x\<rfloor> else - \<lfloor>- x\<rfloor>),
      f_gt = (\<lambda>a b. b < a)\<rparr>"

text \<open>A canvas closed under the horizontal mirror \<open>x \<mapsto> W - 1 - x\<close>.\<close>

definition mirror_closed :: "(int \<times> int) list \<Rightarrow> bool" where
  "mirror_closed c = (\<forall>p \<in> set c. (W - 1 - fst p, snd p) \<in> set c)"

text \<open>
  The concentric arcs in the words of the specification: rings at the radii
  \<open>offset, offset + step, \<dots>\<close> below \<open>H / 2\<close>, where \<open>step = clamp(density / 10 + 2, 2, 10)\<close>
  and \<open>offset = frame mod step\<close>; on the ring of radius \<open>r\<close>, for each \<open>dy\<close> in \<open>[- r, r]\<close>,
  the two dots \<open>(cx \<plusminus> dx, cy + dy)\<close> with \<open>dx\<close> the rounded root of \<open>r\<^sup>2 - dy\<^sup>2\<close>, computed
  by the host as \<^verbatim>\<open>(int)(sqrtf(x) + 0.5f)\<close>.
\<close>

definition ring_dots :: "('f, 'r) host \<Rightarrow> int \<Rightarrow> (int \<times> int) set" where
  "ring_dots h r =
     (\<Union>dy \<in> {- r..r}. {(W div 2 - style1_dx h (r * r - dy * dy), H div 2 + dy),
                        (W div 2 + style1_dx h (r * r - dy * dy), H div 2 + dy)})"

definition ring_radii :: "int \<Rightarrow> int \<Rightarrow> int set" where
  "ring_radii offset step = {r. offset \<le> r \<and> r < H div 2 \<and> (r - offset) mod step = 0}"

definition arc_dots :: "('f, 'r) host \<Rightarrow> 32 word \<Rightarrow> 8 word \<Rightarrow> (int \<times> int) set" where
  "arc_dots h fr d =
     (let step = max 2 (min 10 (uint d div 10 + 2)); offset = uint fr mod step
      in \<Union>r \<in> ring_radii offset step. ring_dots h r)"

text \<open>
  The host of exact real arithmetic: a \<^verbatim>\<open>float\<close> is a real number, every operation is
  the mathematical one, \<^verbatim>\<open>(int)\<close> truncates towards zero. Its random source is constant.
  It relates the rounding idiom of the arcs to the mathematical \<open>round\<close> and \<open>sqrt\<close>.
\<close>

definition real_host :: "(real, unit) host" where
  "real_host =
     \<lparr>rand = (\<lambda>g. (0, g)), srand = (\<lambda>seed. ()),
      f_of_int = of_int, f_lit = of_rat,
      f_add = (+), f_sub = (-), f_mul = (*), f_div = (/),
      sqrtf = sqrt, sinf = sin, cosf = cos,
      atan2f = (\<lambda>y x. Arg (Complex x y)),
      floorf = (\<lambda>x. of_int \<lfloor>x\<rfloor>),
      f_to_int = (\<lambda>x. if 0 \<le> x then \<lfloor>x\<rfloor> else - \<lfloor>- x\<rfloor>),
      f_gt = (\<lambda>a b. b < a)\<rparr>"

text \<open>
  The star as the source draws it: for each spoke \<open>sp\<close> below \<open>spokes\<close>, with angle
  \<open>a = frame * 0.05 + sp * (3.14159 / spokes)\<close>, the line of the lengths \<open>0..W / 2 - 1\<close> at
  angle \<open>a\<close> and the line of the lengths \<open>0..H / 2 - 1\<close> at angle \<open>a + 3.14159 / 2\<close>; at each
  length the dot \<open>(cx + x_off, cy + y_off)\<close> and its mirror image in the vertical line
  through the centre, \<open>(cx - x_off, cy + y_off)\<close>.
\<close>

definition spoke_dots :: "('f, 'r) host \<Rightarrow> 'f \<Rightarrow> int \<Rightarrow> (int \<times> int) set" where
  "spoke_dots h a n =
     (\<Union>len \<in> {0..<n}. {(W div 2 + x_off h a len, H div 2 + y_off h a len),
                         (W div 2 - x_off h a len, H div 2 + y_off h a len)})"

definition star_dots :: "('f, 'r) host \<Rightarrow> 32 word \<Rightarrow> 8 word \<Rightarrow> (int \<times> int) set" where
  "star_dots h fr d =
     (\<Union>sp \<in> {0..<uint (style2_spokes d)}.
        spoke_dots h (spoke_angle h fr (style2_spokes d) sp) (W div 2)
        \<union> spoke_dots h (perp_angle h (spoke_angle h fr (style2_spokes d) sp)) (H div 2))"

text \<open>The mirror image of a point in the vertical line through the centre, \<open>x = W / 2\<close>.\<close>

definition mirror_x :: "int \<times> int \<Rightarrow> int \<times> int" where
  "mirror_x p = (W - fst p, snd p)"

section \<open>General lemmas\<close>

text \<open>Loops are folds: an invariant of the body is an invariant of the loop.\<close>

lemma fold_invariant:
  assumes "P s" and "\<And>x t. P t \<Longrightarrow> P (f x t)"
  shows "P (fold f xs s)"
  using assms(1)
  by (induction xs arbitrary: s) (simp_all add: assms(2))

text \<open>A loop whose body only adds dots adds the union of what its iterations add.\<close>

lemma fold_canvas_union_on:
  assumes "\<And>x t. x \<in> set xs \<Longrightarrow> set (canvas (f x t)) = set (canvas t) \<union> D x"
  shows "set (canvas (fold f xs s)) = set (canvas s) \<union> (\<Union>x \<in> set xs. D x)"
  using assms by (induction xs arbitrary: s) auto

lemma fold_canvas_union:
  assumes "\<And>x t. set (canvas (f x t)) = set (canvas t) \<union> D x"
  shows "set (canvas (fold f xs s)) = set (canvas s) \<union> (\<Union>x \<in> set xs. D x)"
  by (rule fold_canvas_union_on) (rule assms)

lemma set_upto_less: "set [0..n - 1] = {0..<n}"
  by auto

text \<open>Conversions between bytes and integers.\<close>

lemma uint_u8_small: "0 \<le> i \<Longrightarrow> i < 256 \<Longrightarrow> uint (u8 i) = i"
  by (simp add: u8_def uint_word_of_int take_bit_eq_mod)

lemma uint_clamp_u8:
  "uint (clamp_u8 v lo hi) = (if uint v < uint lo then uint lo else if uint hi < uint v then uint hi else uint v)"
  by (simp add: clamp_u8_def word_less_def)

section \<open>The generators leave the globals alone\<close>

lemma globals_canvas_clear [simp]: "globals (canvas_clear s) = globals s"
  by (simp add: globals_def canvas_clear_def)

lemma globals_canvas_draw_dot [simp]: "globals (canvas_draw_dot x y s) = globals s"
  by (simp add: globals_def canvas_draw_dot_def)

lemma globals_rng_update [simp]: "globals (s\<lparr>rng := g\<rparr>) = globals s"
  by (simp add: globals_def)

lemma globals_style0_pixel [simp]: "globals (style0_pixel h x y s) = globals s"
  by (simp add: style0_pixel_def Let_def split: prod.splits)

lemma globals_fold:
  assumes "\<And>x t. globals (f x t) = globals t"
  shows "globals (fold f xs s) = globals s"
  by (rule fold_invariant [where P = "\<lambda>t. globals t = globals s"]) (simp_all add: assms)

lemma globals_render_style0 [simp]: "globals (render_style0 h s) = globals s"
  by (simp add: render_style0_def globals_fold)

lemma globals_style1_dot [simp]: "globals (style1_dot h r dy s) = globals s"
  by (simp add: style1_dot_def Let_def)

lemma globals_style1_rings [simp]: "globals (style1_rings h d r s) = globals s"
proof (induction h d r s rule: style1_rings.induct)
  case (1 h d r s)
  show ?case
  proof (cases "r < H div 2")
    case True
    then show ?thesis
      using "1.IH" by (subst style1_rings.simps) (simp add: globals_fold)
  next
    case False
    then show ?thesis by (subst style1_rings.simps) simp
  qed
qed

lemma globals_render_style1 [simp]: "globals (render_style1 h s) = globals s"
  by (simp add: render_style1_def Let_def)

lemma globals_style2_dot [simp]: "globals (style2_dot h a len s) = globals s"
  by (simp add: style2_dot_def Let_def)

lemma globals_style2_spoke [simp]: "globals (style2_spoke h fr n sp s) = globals s"
  by (simp add: style2_spoke_def Let_def globals_fold)

lemma globals_render_style2 [simp]: "globals (render_style2 h s) = globals s"
  by (simp add: render_style2_def Let_def globals_fold)

lemma globals_style3_pixel [simp]: "globals (style3_pixel h x y s) = globals s"
  by (simp add: style3_pixel_def Let_def split: prod.splits)

lemma globals_render_style3 [simp]: "globals (render_style3 h tick s) = globals s"
  by (simp add: render_style3_def Let_def globals_fold)

lemma globals_style4_pixel [simp]: "globals (style4_pixel h y x s) = globals s"
  by (simp add: style4_pixel_def Let_def)

lemma globals_render_style4 [simp]: "globals (render_style4 h s) = globals s"
  by (simp add: render_style4_def globals_fold)

lemma globals_style5_pixel [simp]: "globals (style5_pixel h y x s) = globals s"
  by (simp add: style5_pixel_def Let_def)

lemma globals_render_style5 [simp]: "globals (render_style5 h s) = globals s"
  by (simp add: render_style5_def globals_fold)

lemma globals_style6_pixel [simp]: "globals (style6_pixel h y x s) = globals s"
  by (simp add: style6_pixel_def Let_def)

lemma globals_render_style6 [simp]: "globals (render_style6 h s) = globals s"
  by (simp add: render_style6_def globals_fold)

lemma globals_render_pattern:
  "globals (render_pattern h tick s) = globals (s\<lparr>frame := frame s + 1\<rparr>)"
  by (simp add: render_pattern_def Let_def)

section \<open>Input state machine: properties\<close>

lemma style_left:
  "style (input_callback (short_press InputKeyLeft) s) = (if style s = 0 then 6 else u8 (uint (style s) - 1))"
  by (simp add: input_callback_def short_press_def input_switch_def view_port_update_def)

lemma style_right:
  "style (input_callback (short_press InputKeyRight) s) = (if style s = 6 then 0 else u8 (uint (style s) + 1))"
  by (simp add: input_callback_def short_press_def input_switch_def view_port_update_def)

text \<open>
  Claim C2. From a style in 0..6, a short press of Left sets the style to 6 when it was 0
  and to style - 1 otherwise; a short press of Right sets it to 0 when it was 6 and to
  style + 1 otherwise. The values are read as integers, so no wrap-around of the byte
  is involved: Right from 6 gives 0 and Left from 0 gives 6.
\<close>

theorem style_transitions:
  assumes "style s \<le> 6"
  shows "uint (style (input_callback (short_press InputKeyLeft) s)) =
           (if uint (style s) = 0 then 6 else uint (style s) - 1)
       \<and> uint (style (input_callback (short_press InputKeyRight) s)) =
           (if uint (style s) = 6 then 0 else uint (style s) + 1)"
proof -
  from assms have b: "uint (style s) \<le> 6"
    by (simp add: word_le_def)
  have p: "0 \<le> uint (style s)" by simp
  have z: "(style s = 0) = (uint (style s) = 0)" "(style s = 6) = (uint (style s) = 6)"
    by (simp_all add: word_uint_eq_iff)
  have left: "uint (style s) \<noteq> 0 \<Longrightarrow> uint (u8 (uint (style s) - 1)) = uint (style s) - 1"
    using b p by (intro uint_u8_small) arith+
  have right: "uint (u8 (uint (style s) + 1)) = uint (style s) + 1"
    using b p by (intro uint_u8_small) arith+
  have l: "uint (style (input_callback (short_press InputKeyLeft) s)) =
      (if uint (style s) = 0 then 6 else uint (style s) - 1)"
    by (cases "uint (style s) = 0") (simp_all add: style_left z left)
  have r: "uint (style (input_callback (short_press InputKeyRight) s)) =
      (if uint (style s) = 6 then 0 else uint (style s) + 1)"
    by (cases "uint (style s) = 6") (simp_all add: style_right z right)
  from l r show ?thesis ..
qed

theorem style_transitions_witness:
  "style ((initial ())\<lparr>style := 6\<rparr>) \<le> 6
   \<and> uint (style (input_callback (short_press InputKeyLeft) ((initial ())\<lparr>style := 6\<rparr>))) = 5
   \<and> uint (style (input_callback (short_press InputKeyRight) ((initial ())\<lparr>style := 6\<rparr>))) = 0"
proof -
  have h: "style ((initial ())\<lparr>style := 6\<rparr>) \<le> 6" by simp
  show ?thesis using h style_transitions [OF h] by simp
qed

lemma density_up:
  "dot_threshold (input_callback (short_press InputKeyUp) s) =
     clamp_u8 (u8 (uint (dot_threshold s) + 10)) 0 100"
  by (simp add: input_callback_def short_press_def input_switch_def view_port_update_def)

lemma density_down:
  "dot_threshold (input_callback (short_press InputKeyDown) s) =
     (if dot_threshold s < 10 then 0 else u8 (uint (dot_threshold s) - 10))"
  by (simp add: input_callback_def short_press_def input_switch_def view_port_update_def)

text \<open>
  Claim C3. From a density in 0..100, a short press of Up sets the density to
  clamp(density + 10, 0, 100) and a short press of Down sets it to 0 when it was below
  10 and to density - 10 otherwise; so Up from 100 stays at 100 and Down from 0 stays
  at 0.
\<close>

theorem density_transitions:
  assumes "dot_threshold s \<le> 100"
  shows "uint (dot_threshold (input_callback (short_press InputKeyUp) s)) =
           max 0 (min 100 (uint (dot_threshold s) + 10))
       \<and> uint (dot_threshold (input_callback (short_press InputKeyDown) s)) =
           (if uint (dot_threshold s) < 10 then 0 else uint (dot_threshold s) - 10)"
proof -
  from assms have b: "uint (dot_threshold s) \<le> 100"
    by (simp add: word_le_def)
  have p: "0 \<le> uint (dot_threshold s)" by simp
  have lt: "(dot_threshold s < 10) = (uint (dot_threshold s) < 10)"
    by (simp add: word_less_def)
  have up: "uint (u8 (uint (dot_threshold s) + 10)) = uint (dot_threshold s) + 10"
    using b p by (intro uint_u8_small) arith+
  have down: "\<not> uint (dot_threshold s) < 10 \<Longrightarrow>
      uint (u8 (uint (dot_threshold s) - 10)) = uint (dot_threshold s) - 10"
    using b by (intro uint_u8_small) arith+
  have up': "uint (dot_threshold (input_callback (short_press InputKeyUp) s)) =
      (if 100 < uint (dot_threshold s) + 10 then 100 else uint (dot_threshold s) + 10)"
  proof -
    have "\<not> uint (dot_threshold s) + 10 < 0"
      using p by arith
    then show ?thesis
      by (simp add: density_up uint_clamp_u8 up)
  qed
  have "uint (dot_threshold (input_callback (short_press InputKeyUp) s)) =
      max 0 (min 100 (uint (dot_threshold s) + 10))"
    unfolding up' using p by arith
  then show ?thesis
    by (simp add: density_down down lt)
qed

theorem density_transitions_witness:
  "dot_threshold ((initial ())\<lparr>dot_threshold := 95\<rparr>) \<le> 100
   \<and> uint (dot_threshold (input_callback (short_press InputKeyUp)
          ((initial ())\<lparr>dot_threshold := 95\<rparr>))) = 100
   \<and> uint (dot_threshold (input_callback (short_press InputKeyDown)
          ((initial ())\<lparr>dot_threshold := 95\<rparr>))) = 85"
proof -
  have h: "dot_threshold ((initial ())\<lparr>dot_threshold := 95\<rparr>) \<le> 100" by simp
  show ?thesis using h density_transitions [OF h] by simp
qed

text \<open>
  Claim C10. An input event whose press type is not the short press, whatever its key,
  leaves the whole state as it was: style, density and the running flag are unchanged
  and no redraw is requested.
\<close>

theorem non_short_press_ignored:
  assumes "type event \<noteq> InputTypeShort"
  shows "input_callback event s = s"
  using assms by (simp add: input_callback_def)

theorem non_short_press_ignored_witness:
  "type \<lparr>key = InputKeyBack, type = InputTypeOther\<rparr> \<noteq> InputTypeShort
   \<and> input_callback \<lparr>key = InputKeyBack, type = InputTypeOther\<rparr> (initial ()) = initial ()"
proof -
  have h: "type \<lparr>key = InputKeyBack, type = InputTypeOther\<rparr> \<noteq> InputTypeShort" by simp
  show ?thesis using h non_short_press_ignored [OF h] by simp
qed

section \<open>Reachable states\<close>

lemma in_range_globals: "globals s' = globals s \<Longrightarrow> in_range s' = in_range s"
  by (simp add: globals_def in_range_def)

lemma globals_frame_update: "globals (s\<lparr>frame := n\<rparr>) = (app_running s, dot_threshold s, style s, n, vp_updates s)"
  by (simp add: globals_def)

lemma in_range_render_pattern: "in_range (render_pattern h tick s) = in_range s"
proof -
  have "in_range (render_pattern h tick s) = in_range (s\<lparr>frame := frame s + 1\<rparr>)"
    by (rule in_range_globals) (rule globals_render_pattern)
  then show ?thesis by (simp add: in_range_def)
qed

lemma in_range_input_switch:
  assumes "in_range s"
  shows "in_range (fst (input_switch k s))"
proof -
  from assms have s: "uint (style s) \<le> 6" and d: "uint (dot_threshold s) \<le> 100"
    by (simp_all add: in_range_def word_le_def)
  have ps: "0 \<le> uint (style s)" and pd: "0 \<le> uint (dot_threshold s)" by simp_all
  have l: "uint (style s) \<noteq> 0 \<Longrightarrow> uint (u8 (uint (style s) - 1)) = uint (style s) - 1"
    using s ps by (intro uint_u8_small) arith+
  have r: "uint (u8 (uint (style s) + 1)) = uint (style s) + 1"
    using s ps by (intro uint_u8_small) arith+
  have u: "uint (u8 (uint (dot_threshold s) + 10)) = uint (dot_threshold s) + 10"
    using d pd by (intro uint_u8_small) arith+
  have dn: "\<not> uint (dot_threshold s) < 10 \<Longrightarrow>
      uint (u8 (uint (dot_threshold s) - 10)) = uint (dot_threshold s) - 10"
    using d by (intro uint_u8_small) arith+
  show ?thesis
  proof (cases k)
    case InputKeyLeft
    have "uint (if style s = 0 then 6 else u8 (uint (style s) - 1)) \<le> 6"
      using s l by (cases "uint (style s) = 0") (simp_all add: word_uint_eq_iff)
    with d InputKeyLeft show ?thesis
      by (simp add: input_switch_def in_range_def word_le_def)
  next
    case InputKeyRight
    have "uint (if style s = 6 then 0 else u8 (uint (style s) + 1)) \<le> 6"
      using s r by (cases "uint (style s) = 6") (simp_all add: word_uint_eq_iff)
    with d InputKeyRight show ?thesis
      by (simp add: input_switch_def in_range_def word_le_def)
  next
    case InputKeyUp
    have "uint (clamp_u8 (u8 (uint (dot_threshold s) + 10)) 0 100) \<le> 100"
      by (simp add: uint_clamp_u8)
    with s InputKeyUp show ?thesis
      by (simp add: input_switch_def in_range_def word_le_def)
  next
    case InputKeyDown
    have "uint (if dot_threshold s < 10 then 0 else u8 (uint (dot_threshold s) - 10)) \<le> 100"
      using d dn by (cases "uint (dot_threshold s) < 10") (simp_all add: word_less_def)
    with s InputKeyDown show ?thesis
      by (simp add: input_switch_def in_range_def word_le_def)
  next
    case InputKeyBack
    with assms show ?thesis by (simp add: input_switch_def in_range_def)
  next
    case InputKeyOther
    with assms show ?thesis by (simp add: input_switch_def in_range_def)
  qed
qed

lemma in_range_view_port_update [simp]: "in_range (view_port_update s) = in_range s"
  by (simp add: in_range_def view_port_update_def)

lemma in_range_input_callback:
  assumes "in_range s"
  shows "in_range (input_callback event s)"
  using assms in_range_input_switch [OF assms, of "key event"]
  by (cases "input_switch (key event) s") (simp add: input_callback_def)

lemma in_range_dispatch: "in_range s \<Longrightarrow> in_range (dispatch h c s)"
  by (cases c) (simp_all add: in_range_input_callback view_callback_def in_range_render_pattern)

lemma in_range_run: "in_range s \<Longrightarrow> in_range (run h calls s)"
  unfolding run_def by (rule fold_invariant) (simp_all add: in_range_dispatch)

lemma in_range_initial: "in_range (initial g)"
  by (simp add: in_range_def initial_def)

text \<open>
  Claim C1. In every state reached from the initial one (style 0, density 50) by any
  sequence of input events and draw calls, the style is in 0..6 and the density in
  0..100.
\<close>

theorem reachable_in_range:
  "style (run h calls (initial g)) \<le> 6 \<and> dot_threshold (run h calls (initial g)) \<le> 100"
  using in_range_run [OF in_range_initial, of h calls g] by (simp add: in_range_def)

section \<open>Dispatcher: properties\<close>

lemma frame_render_pattern: "frame (render_pattern h tick s) = frame s + 1"
  using globals_render_pattern [of h tick s] by (simp add: globals_def)

lemma frame_fold_render_pattern:
  "frame (fold (render_pattern h) ticks s) = frame s + of_nat (length ticks)"
  by (induction ticks arbitrary: s) (simp_all add: frame_render_pattern)

lemma frame_input_callback: "frame (input_callback event s) = frame s"
  by (cases "key event")
     (simp_all add: input_callback_def input_switch_def view_port_update_def)

lemma frame_run:
  "frame (run h calls s) = frame s + of_nat (length (filter is_draw calls))"
  unfolding run_def
proof (induction calls arbitrary: s)
  case Nil
  show ?case by simp
next
  case (Cons c calls)
  show ?case
    by (cases c) (simp_all add: Cons.IH frame_input_callback view_callback_def frame_render_pattern)
qed

text \<open>
  Claim C4. Every call of the dispatcher adds exactly 1 to the frame counter, whatever
  the style (in range or not); after N calls from frame 0 the counter is N modulo
  \<open>2 ^ 32\<close>, also when input events come in between.
\<close>

theorem frame_counter:
  "frame (render_pattern h tick s) = frame s + 1
   \<and> unat (frame (fold (render_pattern h) ticks (s\<lparr>frame := 0\<rparr>))) = length ticks mod 2 ^ 32
   \<and> unat (frame (run h calls (initial g))) = length (filter is_draw calls) mod 2 ^ 32"
  by (simp add: frame_render_pattern frame_fold_render_pattern frame_run initial_def unat_of_nat)

text \<open>
  Claim C7. For a style outside 0..6 the dispatcher runs the mirrored-dots generator.
  It returns (every function here is total), and of the globals only the frame counter
  changes, by 1.
\<close>

theorem out_of_range_style_fallback:
  assumes "6 < style s"
  shows "render_pattern h tick s = render_style0 h (s\<lparr>frame := frame s + 1\<rparr>)
       \<and> globals (render_pattern h tick s) =
           (app_running s, dot_threshold s, style s, frame s + 1, vp_updates s)"
proof -
  from assms have "style s \<noteq> 0" "style s \<noteq> 1" "style s \<noteq> 2" "style s \<noteq> 3"
    "style s \<noteq> 4" "style s \<noteq> 5" "style s \<noteq> 6"
    by auto
  then have "render_pattern h tick s = render_style0 h (s\<lparr>frame := frame s + 1\<rparr>)"
    by (simp add: render_pattern_def Let_def)
  then show ?thesis
    by (simp add: globals_frame_update)
qed

theorem out_of_range_style_fallback_witness:
  "6 < style ((initial (1::nat))\<lparr>style := 9\<rparr>)
   \<and> render_pattern star_host 0 ((initial (1::nat))\<lparr>style := 9\<rparr>) =
       render_style0 star_host ((initial (1::nat))\<lparr>style := 9, frame := 1\<rparr>)
   \<and> globals (render_pattern star_host 0 ((initial (1::nat))\<lparr>style := 9\<rparr>)) =
       (True, 50, 9, 1, 0)"
proof -
  let ?s = "(initial (1::nat))\<lparr>style := 9\<rparr>"
  have h: "6 < style ?s" by simp
  note t = out_of_range_style_fallback [OF h, of star_host 0]
  have f: "?s\<lparr>frame := frame ?s + 1\<rparr> = (initial 1)\<lparr>style := 9, frame := 1\<rparr>"
    by (simp add: initial_def)
  have g: "(app_running ?s, dot_threshold ?s, style ?s, frame ?s + 1, vp_updates ?s) =
      (True, 50, 9, 1, 0)"
    by (simp add: initial_def)
  show ?thesis using h t unfolding f g by blast
qed

section \<open>Mirrored dots: properties\<close>

lemma mirror_closed_style0_pixel:
  assumes "mirror_closed (canvas s)"
  shows "mirror_closed (canvas (style0_pixel h x y s))"
  using assms
  by (auto simp add: style0_pixel_def Let_def canvas_draw_dot_def mirror_closed_def
      split: prod.splits)

lemma mirror_closed_render_style0:
  fixes s :: "'r app"
  shows "mirror_closed (canvas (render_style0 h s))"
  unfolding render_style0_def
proof (rule fold_invariant [where P = "\<lambda>t. mirror_closed (canvas t)"])
  show "mirror_closed (canvas (canvas_clear s))"
    by (simp add: canvas_clear_def mirror_closed_def)
next
  fix x and t :: "'r app"
  assume "mirror_closed (canvas t)"
  then show "mirror_closed (canvas (fold (style0_pixel h x) [0..H - 1] t))"
    by (rule fold_invariant) (rule mirror_closed_style0_pixel)
qed

text \<open>
  Claim C8. After the mirrored-dots generator, whatever the state of the random source
  and the density, for every \<open>x\<close> in \<open>[0, W / 2)\<close> and \<open>y\<close> in \<open>[0, H)\<close> the pixel \<open>(x, y)\<close> is
  lit if and only if the pixel \<open>(W - 1 - x, y)\<close> is lit.
\<close>

theorem mirrored_dots_symmetric:
  assumes "0 \<le> x" and "x < W div 2" and "0 \<le> y" and "y < H"
  shows "lit (render_style0 h s) (x, y) = lit (render_style0 h s) (W - 1 - x, y)"
proof
  assume "lit (render_style0 h s) (x, y)"
  with mirror_closed_render_style0 [of h s] show "lit (render_style0 h s) (W - 1 - x, y)"
    by (force simp add: lit_def mirror_closed_def)
next
  assume "lit (render_style0 h s) (W - 1 - x, y)"
  with mirror_closed_render_style0 [of h s] show "lit (render_style0 h s) (x, y)"
    by (force simp add: lit_def mirror_closed_def)
qed

theorem mirrored_dots_symmetric_witness:
  "(0::int) \<le> 3 \<and> (3::int) < W div 2 \<and> (0::int) \<le> 5 \<and> (5::int) < H
   \<and> lit (render_style0 star_host (initial 1)) (3, 5) =
       lit (render_style0 star_host (initial 1)) (W - 1 - 3, 5)"
proof -
  have h1: "(0::int) \<le> 3" and h2: "(3::int) < W div 2"
    and h3: "(0::int) \<le> 5" and h4: "(5::int) < H"
    by (simp_all add: W_def H_def)
  from h1 h2 h3 h4 mirrored_dots_symmetric [OF h1 h2 h3 h4, of star_host "initial 1"]
  show ?thesis by blast
qed

section \<open>Concentric arcs: properties\<close>

lemma inside_nonneg:
  fixes r dy :: int
  assumes "- r \<le> dy" and "dy \<le> r"
  shows "0 \<le> r * r - dy * dy"
proof -
  from assms have "\<bar>dy\<bar> \<le> \<bar>r\<bar>" by arith
  then have "dy\<^sup>2 \<le> r\<^sup>2" by (simp add: abs_le_square_iff)
  then show ?thesis by (simp add: power2_eq_square)
qed

lemma set_canvas_style1_dot:
  assumes "dy \<in> set [- r..r]"
  shows "set (canvas (style1_dot h r dy s)) =
     set (canvas s) \<union> {(W div 2 - style1_dx h (r * r - dy * dy), H div 2 + dy),
                        (W div 2 + style1_dx h (r * r - dy * dy), H div 2 + dy)}"
proof -
  from assms have "0 \<le> r * r - dy * dy"
    by (intro inside_nonneg) simp_all
  then have "\<not> r * r - dy * dy < 0" by arith
  then show ?thesis
    by (auto simp add: style1_dot_def Let_def canvas_draw_dot_def)
qed

lemma set_canvas_ring:
  "set (canvas (fold (style1_dot h r) [- r..r] s)) = set (canvas s) \<union> ring_dots h r"
proof -
  have "set (canvas (fold (style1_dot h r) [- r..r] s)) =
      set (canvas s) \<union> (\<Union>dy \<in> set [- r..r].
        {(W div 2 - style1_dx h (r * r - dy * dy), H div 2 + dy),
         (W div 2 + style1_dx h (r * r - dy * dy), H div 2 + dy)})"
    by (rule fold_canvas_union_on) (rule set_canvas_style1_dot)
  then show ?thesis by (simp add: ring_dots_def)
qed

lemma ring_radii_done: "\<not> r < H div 2 \<Longrightarrow> ring_radii r step = {}"
  by (auto simp add: ring_radii_def)

lemma ring_radii_next:
  assumes "r < H div 2" and "0 < step"
  shows "ring_radii r step = insert r (ring_radii (r + step) step)"
proof (rule set_eqI)
  fix q
  show "q \<in> ring_radii r step \<longleftrightarrow> q \<in> insert r (ring_radii (r + step) step)"
  proof
    assume q: "q \<in> ring_radii r step"
    show "q \<in> insert r (ring_radii (r + step) step)"
    proof (cases "q = r")
      case True
      then show ?thesis by simp
    next
      case False
      from q have le: "r \<le> q" and lt: "q < H div 2" and m: "(q - r) mod step = 0"
        by (simp_all add: ring_radii_def)
      from m have d: "step dvd q - r" by (simp add: dvd_eq_mod_eq_0)
      from le False have "0 < q - r" by arith
      with d have "step \<le> q - r" by (rule zdvd_imp_le)
      moreover have "(q - (r + step)) mod step = 0"
      proof -
        from d have "step dvd (q - r) - step" by (rule dvd_diff) simp
        moreover have "(q - r) - step = q - (r + step)" by arith
        ultimately show ?thesis by (simp add: dvd_eq_mod_eq_0)
      qed
      ultimately have "q \<in> ring_radii (r + step) step"
        using lt by (simp add: ring_radii_def)
      then show ?thesis by simp
    qed
  next
    assume "q \<in> insert r (ring_radii (r + step) step)"
    then consider "q = r" | "q \<in> ring_radii (r + step) step" by auto
    then show "q \<in> ring_radii r step"
    proof cases
      case 1
      with assms show ?thesis by (simp add: ring_radii_def)
    next
      case 2
      then have le: "r + step \<le> q" and lt: "q < H div 2" and m: "(q - (r + step)) mod step = 0"
        by (simp_all add: ring_radii_def)
      from m have "step dvd q - (r + step)" by (simp add: dvd_eq_mod_eq_0)
      then have "step dvd (q - (r + step)) + step" by (rule dvd_add) simp
      moreover have "(q - (r + step)) + step = q - r" by arith
      ultimately have "step dvd q - r" by simp
      then have "(q - r) mod step = 0" by (simp add: dvd_eq_mod_eq_0)
      with le lt assms show ?thesis by (simp add: ring_radii_def)
    qed
  qed
qed

lemma uint_style1_step: "uint (style1_step d) = max 2 (min 10 (uint d div 10 + 2))"
proof -
  have "0 \<le> uint d" "uint d < 256" using uint_lt2p [of d] by simp_all
  then have "uint (u8 (uint d div 10 + 2)) = uint d div 10 + 2"
    by (intro uint_u8_small) arith+
  then show ?thesis
    by (simp add: style1_step_def uint_clamp_u8)
qed

lemma style1_step_pos: "0 < uint (style1_step d)"
  by (simp add: uint_style1_step)

lemma set_canvas_style1_rings:
  "set (canvas (style1_rings h d r s)) =
     set (canvas s) \<union> (\<Union>q \<in> ring_radii r (uint (style1_step d)). ring_dots h q)"
proof (induction h d r s rule: style1_rings.induct)
  case (1 h d r s)
  show ?case
  proof (cases "r < H div 2")
    case True
    have "set (canvas (style1_rings h d r s)) =
        set (canvas (style1_rings h d (r + uint (style1_step d))
          (fold (style1_dot h r) [- r..r] s)))"
      using True by (subst style1_rings.simps) simp
    also have "\<dots> = set (canvas s) \<union> ring_dots h r
        \<union> (\<Union>q \<in> ring_radii (r + uint (style1_step d)) (uint (style1_step d)). ring_dots h q)"
      using True by (simp add: "1.IH" set_canvas_ring)
    also have "\<dots> = set (canvas s)
        \<union> (\<Union>q \<in> insert r (ring_radii (r + uint (style1_step d)) (uint (style1_step d))).
             ring_dots h q)"
      by auto
    finally show ?thesis
      using True by (simp only: ring_radii_next [OF True style1_step_pos])
  next
    case False
    then show ?thesis
      by (subst style1_rings.simps) (simp add: ring_radii_done)
  qed
qed

lemma set_canvas_render_style1:
  "set (canvas (render_style1 h s)) = arc_dots h (frame s) (dot_threshold s)"
  by (simp add: render_style1_def arc_dots_def Let_def set_canvas_style1_rings
      canvas_clear_def uint_style1_step)

lemma style1_dx_real_host: "style1_dx real_host (int n) = round (sqrt (real n))"
proof -
  have "0 \<le> sqrt (real n) + 1 / 2" by simp
  then show ?thesis
    by (simp add: style1_dx_def real_host_def round_def of_rat_divide)
qed

lemma style1_step_50: "style1_step 50 = 7"
  by (simp add: style1_step_def clamp_u8_def u8_def)

text \<open>
  Claim C9. For every frame and density the ring spacing of the concentric arcs is
  \<open>step = clamp(density / 10 + 2, 2, 10)\<close>, which is 7 at density 50; the first radius is
  \<open>frame mod step\<close>; and the dots plotted are exactly, for each ring radius
  \<open>r = offset, offset + step, \<dots>\<close> below \<open>H / 2\<close> and each \<open>dy\<close> in \<open>[- r, r]\<close>, the dots
  \<open>(cx - dx, cy + dy)\<close> and \<open>(cx + dx, cy + dy)\<close>, where \<open>dx\<close> is the host's
  \<^verbatim>\<open>(int)(sqrtf(r*r - dy*dy) + 0.5f)\<close>; in exact real arithmetic that is
  \<open>round (sqrt (r\<^sup>2 - dy\<^sup>2))\<close>.
\<close>

theorem concentric_arcs:
  "uint (style1_step d) = max 2 (min 10 (uint d div 10 + 2))
   \<and> style1_step 50 = 7
   \<and> set (canvas (render_style1 h s)) = arc_dots h (frame s) (dot_threshold s)
   \<and> style1_dx real_host (int n) = round (sqrt (real n))"
  by (simp only: uint_style1_step style1_step_50 set_canvas_render_style1 style1_dx_real_host)

section \<open>Rotating star: properties\<close>

lemma set_canvas_style2_dot:
  "set (canvas (style2_dot h a len s)) =
     set (canvas s) \<union> {(W div 2 + x_off h a len, H div 2 + y_off h a len),
                        (W div 2 - x_off h a len, H div 2 + y_off h a len)}"
  by (auto simp add: style2_dot_def Let_def canvas_draw_dot_def)

lemma set_canvas_spoke_line:
  "set (canvas (fold (style2_dot h a) [0..n - 1] s)) = set (canvas s) \<union> spoke_dots h a n"
  unfolding spoke_dots_def set_upto_less [symmetric]
  by (rule fold_canvas_union) (rule set_canvas_style2_dot)

lemma set_canvas_style2_spoke:
  "set (canvas (style2_spoke h fr spokes sp s)) =
     set (canvas s) \<union> (spoke_dots h (spoke_angle h fr spokes sp) (W div 2)
       \<union> spoke_dots h (perp_angle h (spoke_angle h fr spokes sp)) (H div 2))"
  by (simp add: style2_spoke_def Let_def set_canvas_spoke_line Un_assoc)

lemma set_canvas_render_style2:
  "set (canvas (render_style2 h s)) = star_dots h (frame s) (dot_threshold s)"
proof -
  have "set (canvas (fold (style2_spoke h (frame s) (style2_spokes (dot_threshold s)))
          [0..uint (style2_spokes (dot_threshold s)) - 1] (canvas_clear s))) =
        set (canvas (canvas_clear s)) \<union> star_dots h (frame s) (dot_threshold s)"
    unfolding star_dots_def set_upto_less [symmetric]
    by (rule fold_canvas_union) (rule set_canvas_style2_spoke)
  then show ?thesis
    by (simp add: render_style2_def Let_def canvas_clear_def)
qed

lemma mirror_x_spoke_dots: "mirror_x ` spoke_dots h a n = spoke_dots h a n"
proof -
  have w: "W - (W div 2 + k) = W div 2 - k" "W - (W div 2 - k) = W div 2 + k" for k
    by (simp_all add: W_def)
  show ?thesis
    unfolding spoke_dots_def image_UN
    by (rule SUP_cong [OF refl]) (auto simp add: mirror_x_def w)
qed

lemma mirror_x_star_dots: "mirror_x ` star_dots h fr d = star_dots h fr d"
  unfolding star_dots_def image_UN image_Un mirror_x_spoke_dots ..

lemma uint_style2_spokes: "uint (style2_spokes d) = max 2 (min 16 (uint d div 10 + 2))"
proof -
  have "0 \<le> uint d" "uint d < 256" using uint_lt2p [of d] by simp_all
  then have "uint (u8 (uint d div 10 + 2)) = uint d div 10 + 2"
    by (intro uint_u8_small) arith+
  then show ?thesis
    by (simp add: style2_spokes_def uint_clamp_u8)
qed

text \<open>
  Claim C5, as amended. With \<open>spokes = clamp(density / 10 + 2, 2, 16)\<close> the star plots
  exactly the dots of \<open>star_dots\<close>: for every spoke and length the dot
  \<open>(cx + x_off, cy + y_off)\<close> and the dot \<open>(cx - x_off, cy + y_off)\<close>, where \<open>x_off\<close> and
  \<open>y_off\<close> are \<^verbatim>\<open>(int)(cosf(a) * len)\<close> and \<^verbatim>\<open>(int)(sinf(a) * len)\<close>. The picture is
  therefore its own mirror image in the vertical line \<open>x = cx\<close>.
\<close>

theorem star_mirrored_left_right:
  "uint (style2_spokes (dot_threshold s)) = max 2 (min 16 (uint (dot_threshold s) div 10 + 2))
   \<and> set (canvas (render_style2 h s)) = star_dots h (frame s) (dot_threshold s)
   \<and> mirror_x ` set (canvas (render_style2 h s)) = set (canvas (render_style2 h s))"
  by (simp add: uint_style2_spokes set_canvas_render_style2 mirror_x_star_dots)

lemma y_off_star_host_nonneg: "0 \<le> len \<Longrightarrow> 0 \<le> y_off star_host a len"
  by (simp add: y_off_def star_host_def)

lemma star_dots_star_host_lower:
  assumes "(x, y) \<in> star_dots star_host fr d"
  shows "H div 2 \<le> y"
  using assms y_off_star_host_nonneg
  by (auto simp add: star_dots_def spoke_dots_def)

lemma style2_spokes_0: "style2_spokes 0 = 2"
  by (simp add: style2_spokes_def clamp_u8_def u8_def)

text \<open>
  Claim C5, as stated, fails: the star is not closed under the point mirror through the
  centre. At frame 0 and density 0 there are two spokes; the perpendicular of the first
  has angle \<^verbatim>\<open>3.14159f / 2\<close>, where \<^verbatim>\<open>cosf\<close> is about \<open>1.27e-6\<close> and \<^verbatim>\<open>sinf\<close> is 1, so at
  length 1 the offsets are 0 and 1 and the dot \<open>(64, 33)\<close> is plotted. Its point mirror
  \<open>(64, 31)\<close> is not: no sine at the angles reached is negative, so no dot lies above
  the centre row.
\<close>

theorem star_not_point_mirrored:
  "x_off star_host (perp_angle star_host (spoke_angle star_host 0 2 0)) 1 = 0
   \<and> y_off star_host (perp_angle star_host (spoke_angle star_host 0 2 0)) 1 = 1
   \<and> lit (render_style2 star_host ((initial 1)\<lparr>dot_threshold := 0\<rparr>)) (64 + 0, 32 + 1)
   \<and> \<not> lit (render_style2 star_host ((initial 1)\<lparr>dot_threshold := 0\<rparr>)) (64 - 0, 32 - 1)"
proof -
  let ?s = "(initial (1::nat))\<lparr>dot_threshold := 0\<rparr>"
  let ?a = "perp_angle star_host (spoke_angle star_host 0 2 0)"
  have a: "?a = 823549 / 524288"
    by (simp add: perp_angle_def spoke_angle_def base_angle_def angle_step_def star_host_def)
  have x: "x_off star_host ?a 1 = 0"
    unfolding a by (simp add: x_off_def star_host_def floor_eq_iff)
  have y: "y_off star_host ?a 1 = 1"
    unfolding a by (simp add: y_off_def star_host_def)
  have fd: "frame ?s = 0" "dot_threshold ?s = 0"
    by (simp_all add: initial_def)
  have "(W div 2 + x_off star_host ?a 1, H div 2 + y_off star_host ?a 1) \<in> spoke_dots star_host ?a (H div 2)"
    unfolding spoke_dots_def by (rule UN_I [of 1]) (simp_all add: H_def)
  then have "(64, 33) \<in> spoke_dots star_host ?a (H div 2)"
    by (simp add: x y W_def H_def)
  then have "(64, 33) \<in> star_dots star_host 0 0"
    unfolding star_dots_def style2_spokes_0
    by (intro UN_I [of 0] UnI2) simp_all
  then have p: "lit (render_style2 star_host ?s) (64, 33)"
    by (simp add: lit_def set_canvas_render_style2 initial_def)
  have "\<not> lit (render_style2 star_host ?s) (64, 31)"
  proof
    assume "lit (render_style2 star_host ?s) (64, 31)"
    then have "(64, 31) \<in> star_dots star_host 0 0"
      by (simp add: lit_def set_canvas_render_style2 initial_def)
    then have "H div 2 \<le> (31::int)" by (rule star_dots_star_host_lower)
    then show False by (simp add: H_def)
  qed
  with p x y show ?thesis by simp
qed

section \<open>Dispatcher: the style table\<close>

lemma style0_pixel_density_0:
  assumes "dot_threshold s = 0 \<and> canvas s = []"
  shows "dot_threshold (style0_pixel h x y s) = 0 \<and> canvas (style0_pixel h x y s) = []"
  using assms by (simp add: style0_pixel_def Let_def split: prod.splits)

lemma render_style0_density_0:
  fixes s :: "'r app"
  assumes "dot_threshold s = 0"
  shows "canvas (render_style0 h s) = []"
proof -
  have "dot_threshold (render_style0 h s) = 0 \<and> canvas (render_style0 h s) = []"
    unfolding render_style0_def
  proof (rule fold_invariant [where P = "\<lambda>t. dot_threshold t = 0 \<and> canvas t = []"])
    show "dot_threshold (canvas_clear s) = 0 \<and> canvas (canvas_clear s) = []"
      using assms by (simp add: canvas_clear_def)
  next
    fix x and t :: "'r app"
    assume "dot_threshold t = 0 \<and> canvas t = []"
    then show "dot_threshold (fold (style0_pixel h x) [0..H - 1] t) = 0
        \<and> canvas (fold (style0_pixel h x) [0..H - 1] t) = []"
      by (rule fold_invariant) (rule style0_pixel_density_0)
  qed
  then show ?thesis ..
qed

lemma star_dots_nonempty: "star_dots h fr d \<noteq> {}"
proof -
  have "0 < uint (style2_spokes d)"
    by (simp add: uint_style2_spokes)
  then have "(0::int) \<in> {0..<uint (style2_spokes d)}" by simp
  moreover have "(W div 2 + x_off h a 0, H div 2 + y_off h a 0) \<in> spoke_dots h a (W div 2)" for a
    unfolding spoke_dots_def by (rule UN_I [of 0]) (simp_all add: W_def)
  ultimately show ?thesis
    unfolding star_dots_def by blast
qed

text \<open>
  Claim C6. The dispatcher runs the rotating star for style 0, the concentric arcs for
  1, the quadrant noise for 2, the mirrored dots for 3, the spiral swirl for 4, the
  checkerboard wave for 5 and the sunburst for 6, each on the state with the frame
  counter already incremented; in the initial state it runs the rotating star. The
  star is not the mirrored-dots generator: at density 0 the latter draws nothing and
  the star draws its spokes.
\<close>

theorem dispatcher_mapping:
  "render_pattern h tick (s\<lparr>style := 0\<rparr>) = render_style2 h (s\<lparr>style := 0, frame := frame s + 1\<rparr>)
   \<and> render_pattern h tick (s\<lparr>style := 1\<rparr>) = render_style1 h (s\<lparr>style := 1, frame := frame s + 1\<rparr>)
   \<and> render_pattern h tick (s\<lparr>style := 2\<rparr>) = render_style3 h tick (s\<lparr>style := 2, frame := frame s + 1\<rparr>)
   \<and> render_pattern h tick (s\<lparr>style := 3\<rparr>) = render_style0 h (s\<lparr>style := 3, frame := frame s + 1\<rparr>)
   \<and> render_pattern h tick (s\<lparr>style := 4\<rparr>) = render_style4 h (s\<lparr>style := 4, frame := frame s + 1\<rparr>)
   \<and> render_pattern h tick (s\<lparr>style := 5\<rparr>) = render_style5 h (s\<lparr>style := 5, frame := frame s + 1\<rparr>)
   \<and> render_pattern h tick (s\<lparr>style := 6\<rparr>) = render_style6 h (s\<lparr>style := 6, frame := frame s + 1\<rparr>)
   \<and> render_pattern h tick (initial g) = render_style2 h ((initial g)\<lparr>frame := 1\<rparr>)
   \<and> canvas (render_style0 h (s\<lparr>dot_threshold := 0\<rparr>)) = []
   \<and> canvas (render_style2 h (s\<lparr>dot_threshold := 0\<rparr>)) \<noteq> []"
proof -
  have "set (canvas (render_style2 h (s\<lparr>dot_threshold := 0\<rparr>))) \<noteq> {}"
    by (simp add: set_canvas_render_style2 star_dots_nonempty)
  then have "canvas (render_style2 h (s\<lparr>dot_threshold := 0\<rparr>)) \<noteq> []"
    by auto
  moreover have "canvas (render_style0 h (s\<lparr>dot_threshold := 0\<rparr>)) = []"
    by (rule render_style0_density_0) simp
  ultimately show ?thesis
    by (simp add: render_pattern_def Let_def initial_def)
qed

end
